theory Spec2Isabelle
  imports Complex_Main "HOL-Library.Product_Lexorder"
begin

section \<open>Data model\<close>

text \<open>
  Nodes are OSM node identifiers (Python ints). A route is the node sequence returned by the
  router. An edge key is the triple (u, v, key) that indexes both the centrality table and the
  edge table of the graph.
\<close>

type_synonym node = int
type_synonym route = "node list"
type_synonym edge_key = "node \<times> node \<times> nat"

text \<open>The Python exceptions that the modelled code paths can raise.\<close>

datatype exc = ValueError | KeyError | AttributeError | NameError | FileExistsError
  | SystemExit int

section \<open>Geo.generate\_routes (mypackage/mymodule1.py, lines 141--156)\<close>

text \<open>
  The global random generator is a stream \<open>rng\<close> of raw draws together with the position of
  the next unread draw. \<open>np.random.choice(self.graph.nodes, size=temp, replace=True)\<close> reads
  \<open>temp\<close> draws and maps each one to a node; it raises ValueError for a negative size and for
  an empty population when samples are requested.
\<close>

definition draw :: "node list \<Rightarrow> (nat \<Rightarrow> nat) \<Rightarrow> nat \<Rightarrow> node" where
  "draw nodes rng k = nodes ! (rng k mod length nodes)"

definition random_choice ::
  "node list \<Rightarrow> (nat \<Rightarrow> nat) \<Rightarrow> nat \<Rightarrow> int \<Rightarrow> exc + (node list \<times> nat)" where
  "random_choice nodes rng pos sz =
     (if sz < 0 then Inl ValueError
      else if nodes = [] \<and> sz \<noteq> 0 then Inl ValueError
      else Inr (map (\<lambda>i. draw nodes rng (pos + i)) [0..<nat sz], pos + nat sz))"

text \<open>
  \<open>ox.shortest_path(self.graph, origs, dests, weight=self.weight)\<close> routes every
  origin/destination pair; the router \<open>sp\<close> stands for the single-pair search on the weighted
  graph, which answers \<open>None\<close> when no path exists.
\<close>

definition shortest_path ::
  "(node \<Rightarrow> node \<Rightarrow> route option) \<Rightarrow> node list \<Rightarrow> node list \<Rightarrow> route option list" where
  "shortest_path sp origs dests = map (\<lambda>(orig, dest). sp orig dest) (zip origs dests)"

text \<open>One pass through the body of the \<open>while\<close> loop, for the shortfall \<open>temp\<close>.\<close>

definition loop_body ::
  "node list \<Rightarrow> (node \<Rightarrow> node \<Rightarrow> route option) \<Rightarrow> (nat \<Rightarrow> nat) \<Rightarrow> int \<Rightarrow>
   nat \<Rightarrow> route list \<Rightarrow> exc + (nat \<times> route list)" where
  "loop_body nodes sp rng temp pos routes_valid =
     (case random_choice nodes rng pos temp of
        Inl e \<Rightarrow> Inl e
      | Inr (origs, pos1) \<Rightarrow>
          (case random_choice nodes rng pos1 temp of
             Inl e \<Rightarrow> Inl e
           | Inr (dests, pos2) \<Rightarrow>
               (let routes = shortest_path sp origs dests;
                    temp_valid = [r. Some r \<leftarrow> routes]
                in Inr (pos2, routes_valid @ temp_valid))))"

text \<open>
  The loop \<open>while temp != 0\<close> with \<open>temp = self.n - len(routes_valid)\<close> recomputed after every
  pass. The result \<open>None\<close> is a run that never leaves the loop, \<open>Some (Inl e)\<close> a raised
  exception and \<open>Some (Inr routes_valid)\<close> the returned list.
\<close>

partial_function (option) generate_loop ::
  "node list \<Rightarrow> (node \<Rightarrow> node \<Rightarrow> route option) \<Rightarrow> (nat \<Rightarrow> nat) \<Rightarrow> int \<Rightarrow>
   nat \<Rightarrow> route list \<Rightarrow> (exc + route list) option" where
  "generate_loop nodes sp rng n pos routes_valid =
     (if n - int (length routes_valid) = 0 then Some (Inr routes_valid)
      else (case loop_body nodes sp rng (n - int (length routes_valid)) pos routes_valid of
              Inl e \<Rightarrow> Some (Inl e)
            | Inr (pos', routes_valid') \<Rightarrow> generate_loop nodes sp rng n pos' routes_valid'))"

declare generate_loop.simps [code]

definition generate_routes ::
  "node list \<Rightarrow> (node \<Rightarrow> node \<Rightarrow> route option) \<Rightarrow> (nat \<Rightarrow> nat) \<Rightarrow> int \<Rightarrow> nat \<Rightarrow>
   (exc + route list) option" where
  "generate_routes nodes sp rng n pos = generate_loop nodes sp rng n pos []"

text \<open>
  The routes that one pass computes when it starts reading at \<open>pos\<close> with shortfall \<open>t\<close>:
  the origins are the draws \<open>pos, \<dots>, pos + t - 1\<close> and the destinations the next \<open>t\<close>.
\<close>

definition round_routes ::
  "node list \<Rightarrow> (node \<Rightarrow> node \<Rightarrow> route option) \<Rightarrow> (nat \<Rightarrow> nat) \<Rightarrow> nat \<Rightarrow> nat \<Rightarrow>
   route option list" where
  "round_routes nodes sp rng pos t =
     map (\<lambda>i. sp (draw nodes rng (pos + i)) (draw nodes rng (pos + t + i))) [0..<t]"

section \<open>Geo.centrality (mypackage/mymodule1.py, lines 158--171)\<close>

text \<open>
  The edges of the graph are given by \<open>min_key u v\<close>: \<open>None\<close> when there is no edge from
  \<open>u\<close> to \<open>v\<close>, otherwise the key of the parallel edge of least weight, which is the key
  \<open>ox.routing.route_to_gdf\<close> selects. That function pairs consecutive nodes of the route,
  converts the subgraph induced by the route into an edge table (ValueError when that
  subgraph has no edge) and looks the pairs up (KeyError for a pair that is not an edge).
\<close>

fun collect :: "(exc + 'a) list \<Rightarrow> exc + 'a list" where
  "collect [] = Inr []"
| "collect (x # xs) =
     (case x of
        Inl e \<Rightarrow> Inl e
      | Inr a \<Rightarrow> (case collect xs of Inl e \<Rightarrow> Inl e | Inr as \<Rightarrow> Inr (a # as)))"

definition route_pairs :: "route \<Rightarrow> (node \<times> node) list" where
  "route_pairs route = zip (butlast route) (tl route)"

definition route_to_gdf :: "(node \<Rightarrow> node \<Rightarrow> nat option) \<Rightarrow> route \<Rightarrow> exc + edge_key list" where
  "route_to_gdf min_key route =
     (if \<not> list_ex (\<lambda>u. list_ex (\<lambda>v. min_key u v \<noteq> None) route) route then Inl ValueError
      else collect (map (\<lambda>(u, v). case min_key u v of
                                     None \<Rightarrow> Inl KeyError
                                   | Some k \<Rightarrow> Inr (u, v, k))
                        (route_pairs route)))"

text \<open>
  \<open>groupby(["u", "v", "key"]).count()["osmid"]\<close>: one row per distinct edge key, in key
  order, holding the number of rows of the concatenated route tables with that key.
\<close>

definition groupby_count :: "edge_key list \<Rightarrow> (edge_key \<times> nat) list" where
  "groupby_count rows = map (\<lambda>k. (k, length (filter (\<lambda>r. r = k) rows))) (sort (remdups rows))"

text \<open>
  The part of \<open>Geo.centrality\<close> after the routes are generated; \<open>pd.concat\<close> raises
  ValueError on an empty list of tables.
\<close>

definition centrality_of_routes ::
  "(node \<Rightarrow> node \<Rightarrow> nat option) \<Rightarrow> route list \<Rightarrow> exc + (edge_key \<times> nat) list" where
  "centrality_of_routes min_key routes =
     (case collect (map (route_to_gdf min_key) routes) of
        Inl e \<Rightarrow> Inl e
      | Inr routes_gdf_list \<Rightarrow>
          (if routes_gdf_list = [] then Inl ValueError
           else Inr (groupby_count (concat routes_gdf_list))))"

definition centrality ::
  "(node \<Rightarrow> node \<Rightarrow> nat option) \<Rightarrow> node list \<Rightarrow> (node \<Rightarrow> node \<Rightarrow> route option) \<Rightarrow>
   (nat \<Rightarrow> nat) \<Rightarrow> int \<Rightarrow> nat \<Rightarrow> (exc + (edge_key \<times> nat) list) option" where
  "centrality min_key nodes sp rng n pos =
     (case generate_routes nodes sp rng n pos of
        None \<Rightarrow> None
      | Some (Inl e) \<Rightarrow> Some (Inl e)
      | Some (Inr routes) \<Rightarrow> Some (centrality_of_routes min_key routes))"



section \<open>BetweennessCentrality.join\_dataframe (lines 49--56)\<close>

text \<open>
  \<open>DataFrame.join\<close> is a left join on the index: every row of the left table is kept, once
  per matching row of the right table, or once with missing values when nothing matches.
  \<open>astype("str")\<close> renders a missing osmid as the text nan.
\<close>

definition df_join :: "('k \<times> 'a) list \<Rightarrow> ('k \<times> 'b) list \<Rightarrow> ('k \<times> 'a \<times> 'b option) list" where
  "df_join left right =
     concat (map (\<lambda>(k, a). case filter (\<lambda>(k', b). k' = k) right of
                              [] \<Rightarrow> [(k, a, None)]
                            | ms \<Rightarrow> map (\<lambda>(k', b). (k, a, Some b)) ms)
                 left)"

definition join_dataframe ::
  "('o \<Rightarrow> string) \<Rightarrow> (edge_key \<times> 'c) list \<Rightarrow> (edge_key \<times> 'o \<times> 'g) list \<Rightarrow>
   (edge_key \<times> 'c \<times> string \<times> 'g option) list" where
  "join_dataframe str centrality_df edges_df =
     map (\<lambda>(k, c, m). case m of
                         None \<Rightarrow> (k, c, ''nan'', None)
                       | Some (osmid, geometry) \<Rightarrow> (k, c, str osmid, Some geometry))
         (df_join centrality_df edges_df)"

section \<open>BetweennessCentrality.plot\_network (lines 75--98)\<close>

text \<open>
  Column arithmetic is floating point: a finite value or NaN. Dividing zero by zero gives
  NaN, dividing a non-zero value by zero an infinity. The minimum and maximum of an empty
  column are NaN.
\<close>

datatype fl = Fin real | NaN | PosInf | NegInf

definition series_min :: "real list \<Rightarrow> fl" where
  "series_min cs = (if cs = [] then NaN else Fin (Min (set cs)))"

definition series_max :: "real list \<Rightarrow> fl" where
  "series_max cs = (if cs = [] then NaN else Fin (Max (set cs)))"

fun fl_sub :: "fl \<Rightarrow> fl \<Rightarrow> fl" where
  "fl_sub (Fin a) (Fin b) = Fin (a - b)"
| "fl_sub _ _ = NaN"

fun fl_div :: "fl \<Rightarrow> fl \<Rightarrow> fl" where
  "fl_div (Fin a) (Fin b) =
     (if b = 0 then (if a = 0 then NaN else if 0 < a then PosInf else NegInf)
      else Fin (a / b))"
| "fl_div _ _ = NaN"

definition plot_network_weight :: "real list \<Rightarrow> fl list" where
  "plot_network_weight cs =
     map (\<lambda>c. fl_div (fl_sub (Fin c) (series_min cs))
                     (fl_sub (series_max cs) (series_min cs))) cs"

section \<open>Command line and constructor (mymodule2.py, main.py, mymodule1.py lines 18--47)\<close>

record args =
  arg_study_area :: string
  arg_outfile :: string
  arg_route_types :: string
  arg_method :: string
  arg_n_routes :: "int option"

text \<open>
  \<open>global_parser.parse_args()\<close> first classifies every token: a token that is empty or
  does not begin with \<open>-\<close> is a positional argument; any other token (an option such as
  \<open>-h\<close>, the separator \<open>--\<close>, a negative number) goes through the option handling of the
  library.
\<close>

definition positional :: "string \<Rightarrow> bool" where
  "positional tok = (take 1 tok \<noteq> ''-'')"

text \<open>
  A command line of positional tokens is matched against \<open>study_area\<close>, \<open>outfile\<close>,
  \<open>route_types\<close> with \<open>choices=["shortest", "fastest"]\<close>, and the required sub-command with
  its own arguments: none for \<open>networkx\<close>, the integer \<open>n_routes\<close> for \<open>geographical\<close>. Every
  parse error ends in \<open>parser.error\<close>, which exits the interpreter with status 2.
  \<open>parse_int\<close> stands for the \<open>type=int\<close> conversion of the library.
\<close>

fun parse_positionals :: "(string \<Rightarrow> int option) \<Rightarrow> string list \<Rightarrow> exc + args" where
  "parse_positionals parse_int (a # out # t # m # rest) =
     (if t \<noteq> ''shortest'' \<and> t \<noteq> ''fastest'' then Inl (SystemExit 2)
      else if m = ''networkx'' then
        (if rest = [] then
           Inr \<lparr>arg_study_area = a, arg_outfile = out, arg_route_types = t, arg_method = m,
                arg_n_routes = None\<rparr>
         else Inl (SystemExit 2))
      else if m = ''geographical'' then
        (case rest of
           [k] \<Rightarrow> (case parse_int k of
                     None \<Rightarrow> Inl (SystemExit 2)
                   | Some i \<Rightarrow> Inr \<lparr>arg_study_area = a, arg_outfile = out, arg_route_types = t,
                                     arg_method = m, arg_n_routes = Some i\<rparr>)
         | _ \<Rightarrow> Inl (SystemExit 2))
      else Inl (SystemExit 2))"
| "parse_positionals parse_int _ = Inl (SystemExit 2)"

text \<open>
  \<open>input_from_commandline\<close> builds the parser and returns what \<open>parse_args\<close> returns. The
  outcome for a command line with a token that is not positional is left to
  \<open>option_handling\<close>, which stands for that part of the library.
\<close>

definition input_from_commandline ::
  "(string \<Rightarrow> int option) \<Rightarrow> (string list \<Rightarrow> exc + args) \<Rightarrow> string list \<Rightarrow> exc + args" where
  "input_from_commandline parse_int option_handling argv =
     (if list_all positional argv then parse_positionals parse_int argv
      else option_handling argv)"

text \<open>
  The first statement of \<open>main\<close>: the \<open>try\<close> block around the parser. Only ValueError is
  caught; the handler prints its message and falls through to the first use of \<open>args\<close>,
  which is unbound then. The result is the printed lines and the outcome.
\<close>

definition main_user_input ::
  "(string \<Rightarrow> int option) \<Rightarrow> (string list \<Rightarrow> exc + args) \<Rightarrow> string list \<Rightarrow>
   string list \<times> (exc + args)" where
  "main_user_input parse_int option_handling argv =
     (case input_from_commandline parse_int option_handling argv of
        Inr a \<Rightarrow> ([''Processing...'', ''Please wait...''], Inr a)
      | Inl ValueError \<Rightarrow> ([''Please check the input''], Inl NameError)
      | Inl e \<Rightarrow> ([], Inl e))"

text \<open>
  \<open>BetweennessCentrality.__init__\<close> sets \<open>self.graph\<close> and \<open>self.weight\<close> only in the two
  branches of its \<open>if\<close>/\<open>elif\<close>; with any other route type the read of \<open>self.graph\<close> on line 42
  raises AttributeError. The result is the weight attribute.
\<close>

definition init_weight :: "string \<Rightarrow> exc + string" where
  "init_weight route_type =
     (if route_type = ''shortest'' then Inr ''length''
      else if route_type = ''fastest'' then Inr ''travel_time''
      else Inl AttributeError)"

section \<open>Output folder (lines 58--73 and 100--105)\<close>

text \<open>Python's decimal rendering of an int, as the f-string produces it.\<close>

definition digit_char :: "nat \<Rightarrow> char" where
  "digit_char d = ''0123456789'' ! d"

fun str_nat :: "nat \<Rightarrow> string" where
  "str_nat k = (if k < 10 then [digit_char k] else str_nat (k div 10) @ [digit_char (k mod 10)])"

declare str_nat.simps [simp del]

definition str_int :: "int \<Rightarrow> string" where
  "str_int i = (if i < 0 then CHR ''-'' # str_nat (nat (- i)) else str_nat (nat i))"

text \<open>The attributes of the object that name the folder; \<open>method\<close> and \<open>n\<close> start as None.\<close>

record centrality_obj =
  self_area :: string
  self_type :: string
  self_method :: "string option"
  self_n :: "int option"
  self_outfile :: string

definition fmt :: "('a \<Rightarrow> string) \<Rightarrow> 'a option \<Rightarrow> string" where
  "fmt str v = (case v of None \<Rightarrow> ''None'' | Some x \<Rightarrow> str x)"

definition folder_name :: "centrality_obj \<Rightarrow> string" where
  "folder_name ob =
     self_area ob @ ''_'' @ self_type ob @ ''_'' @ fmt id (self_method ob) @ ''_''
       @ fmt str_int (self_n ob)"

text \<open>\<open>os.path.join\<close> of two components (POSIX).\<close>

definition os_path_join :: "string \<Rightarrow> string \<Rightarrow> string" where
  "os_path_join a b =
     (if b \<noteq> [] \<and> hd b = CHR ''/'' then b
      else if a = [] \<or> last a = CHR ''/'' then a @ b
      else a @ ''/'' @ b)"

definition output_path :: "centrality_obj \<Rightarrow> string" where
  "output_path ob = os_path_join (self_outfile ob) (folder_name ob)"

text \<open>
  The file system is the set of paths that exist. \<open>os.makedirs\<close> raises FileExistsError when
  the leaf exists already, and creates the leaf and its missing parents otherwise.
\<close>

definition parents :: "string \<Rightarrow> string list" where
  "parents p = map (\<lambda>i. take i p) (filter (\<lambda>i. p ! i = CHR ''/'') [1..<length p])"

definition os_makedirs :: "string \<Rightarrow> string set \<Rightarrow> (exc + unit) \<times> string set" where
  "os_makedirs p fs =
     (if p \<in> fs then (Inl FileExistsError, fs)
      else (Inr (), insert p (set (parents p) \<union> fs)))"

definition create_new_folder ::
  "centrality_obj \<Rightarrow> string set \<Rightarrow> (exc + string) \<times> string set" where
  "create_new_folder ob fs =
     (if output_path ob \<notin> fs then
        (case os_makedirs (output_path ob) fs of
           (Inl e, fs') \<Rightarrow> (Inl e, fs')
         | (Inr u, fs') \<Rightarrow> (Inr (output_path ob), fs'))
      else (Inr (output_path ob), fs))"

text \<open>
  Both export functions ask \<open>create_new_folder\<close> for the folder and write one file into it.
\<close>

definition save_file ::
  "string \<Rightarrow> centrality_obj \<Rightarrow> string set \<Rightarrow> (exc + string) \<times> string set" where
  "save_file name ob fs =
     (case create_new_folder ob fs of
        (Inl e, fs') \<Rightarrow> (Inl e, fs')
      | (Inr dir, fs') \<Rightarrow> (Inr (os_path_join dir name), insert (os_path_join dir name) fs'))"

definition save_as_geopackage ::
  "centrality_obj \<Rightarrow> string set \<Rightarrow> (exc + string) \<times> string set" where
  "save_as_geopackage = save_file ''centrality.gpkg''"

definition save_as_png ::
  "centrality_obj \<Rightarrow> string set \<Rightarrow> (exc + string) \<times> string set" where
  "save_as_png = save_file ''centrality.png''"

text \<open>
  The export steps of \<open>main\<close> (main.py, lines 43--46): the folder is requested three times,
  once directly and once by each export function. The result lists the folder and the two
  files.
\<close>

definition main_export ::
  "centrality_obj \<Rightarrow> string set \<Rightarrow> (exc + string list) \<times> string set" where
  "main_export ob fs =
     (case create_new_folder ob fs of
        (Inl e, fs0) \<Rightarrow> (Inl e, fs0)
      | (Inr dir, fs0) \<Rightarrow>
          (case save_as_geopackage ob fs0 of
             (Inl e, fs1) \<Rightarrow> (Inl e, fs1)
           | (Inr gpkg, fs1) \<Rightarrow>
               (case save_as_png ob fs1 of
                  (Inl e, fs2) \<Rightarrow> (Inl e, fs2)
                | (Inr png, fs2) \<Rightarrow> (Inr [dir, gpkg, png], fs2))))"

text \<open>Two objects as \<open>main\<close> builds them for the same place and output directory.\<close>

definition geo_obj :: centrality_obj where
  "geo_obj = \<lparr>self_area = ''Heidelberg'', self_type = ''fastest'',
              self_method = Some ''geographical'', self_n = Some 100, self_outfile = ''output''\<rparr>"

definition networkx_obj :: centrality_obj where
  "networkx_obj = \<lparr>self_area = ''Heidelberg'', self_type = ''fastest'',
                   self_method = Some ''networkx'', self_n = Some 100, self_outfile = ''output''\<rparr>"

section \<open>The graph of the test suite (tests/test\_mypackage.py)\<close>




text \<open>
  A graph with exactly one edge, from node 1 to node 2: the only route with more than one
  node is \<open>[1, 2]\<close>, and nothing leads from 2 back to 1.
\<close>

definition one_edge_nodes :: "node list" where
  "one_edge_nodes = [1, 2]"

definition one_edge_min_key :: "node \<Rightarrow> node \<Rightarrow> nat option" where
  "one_edge_min_key u v = (if u = 1 \<and> v = 2 then Some 0 else None)"

definition one_edge_sp :: "node \<Rightarrow> node \<Rightarrow> route option" where
  "one_edge_sp u v =
     (if u \<in> set one_edge_nodes \<and> v \<in> set one_edge_nodes
      then (if u = v then Some [u] else if u = 1 \<and> v = 2 then Some [1, 2] else None)
      else None)"

text \<open>A finite script of draws, continued with zeros.\<close>

definition rng_of :: "nat list \<Rightarrow> nat \<Rightarrow> nat" where
  "rng_of draws k = (if k < length draws then draws ! k else 0)"

section \<open>Properties of the sampling loop\<close>

lemma shortest_path_round:
  "shortest_path sp (map (\<lambda>i. draw nodes rng (pos + i)) [0..<t])
                    (map (\<lambda>i. draw nodes rng (pos + t + i)) [0..<t])
   = round_routes nodes sp rng pos t"
  by (simp add: shortest_path_def round_routes_def zip_map_map zip_same_conv_map)

lemma loop_body_Inr:
  assumes "0 < temp" "nodes \<noteq> []"
  shows "loop_body nodes sp rng temp pos rv =
         Inr (pos + 2 * nat temp, rv @ [r. Some r \<leftarrow> round_routes nodes sp rng pos (nat temp)])"
  using assms
  by (simp add: loop_body_def random_choice_def shortest_path_round mult_2)

lemma loop_body_Inl:
  assumes "temp < 0 \<or> (nodes = [] \<and> temp \<noteq> 0)"
  shows "loop_body nodes sp rng temp pos rv = Inl ValueError"
  using assms by (auto simp add: loop_body_def random_choice_def)


lemma generate_loop_step:
  assumes "int (length rv) < n" "nodes \<noteq> []"
  shows "generate_loop nodes sp rng n pos rv =
         generate_loop nodes sp rng n (pos + 2 * nat (n - int (length rv)))
           (rv @ [r. Some r \<leftarrow> round_routes nodes sp rng pos (nat (n - int (length rv)))])"
  using assms
  by (subst generate_loop.simps) (simp add: loop_body_Inr)

lemma length_round_routes: "length (round_routes nodes sp rng pos t) = t"
  by (simp add: round_routes_def)



lemma set_valid: "set [r. Some r \<leftarrow> xs] = {r. Some r \<in> set xs}"
  by (induction xs) (auto split: option.splits)

lemma round_routes_sampled:
  assumes "Some r \<in> set (round_routes nodes sp rng pos t)"
  shows "\<exists>k l. sp (draw nodes rng k) (draw nodes rng l) = Some r"
proof -
  from assms obtain i where "sp (draw nodes rng (pos + i)) (draw nodes rng (pos + t + i)) = Some r"
    by (auto simp: round_routes_def)
  then show ?thesis by blast
qed

text \<open>
  What a finished run returns: the only exception is ValueError, and a returned list has
  exactly \<open>n\<close> entries, each one either present at the start or computed by some pass.
\<close>

lemma generate_loop_result:
  assumes run: "generate_loop nodes sp rng n pos rv = Some y"
  shows "(\<forall>e. y = Inl e \<longrightarrow> e = ValueError) \<and>
         (\<forall>rs. y = Inr rs \<longrightarrow> int (length rs) = n \<and>
            (\<forall>r\<in>set rs. r \<in> set rv \<or> (\<exists>p t. Some r \<in> set (round_routes nodes sp rng p t))))"
proof (rule generate_loop.raw_induct[where P = "\<lambda>nodes sp rng n pos rv y.
         (\<forall>e. y = Inl e \<longrightarrow> e = ValueError) \<and>
         (\<forall>rs. y = Inr rs \<longrightarrow> int (length rs) = n \<and>
            (\<forall>r\<in>set rs. r \<in> set rv \<or> (\<exists>p t. Some r \<in> set (round_routes nodes sp rng p t))))", OF _ run])
  fix loop :: "node list \<Rightarrow> (node \<Rightarrow> node \<Rightarrow> route option) \<Rightarrow> (nat \<Rightarrow> nat) \<Rightarrow> int \<Rightarrow>
   nat \<Rightarrow> route list \<Rightarrow> (exc + route list) option" 
  fix nodes sp rng n pos rv y
  assume IH: "\<And>nodes sp rng n pos rv y. loop nodes sp rng n pos rv = Some y \<Longrightarrow>
         (\<forall>e. y = Inl e \<longrightarrow> e = ValueError) \<and>
         (\<forall>rs. y = Inr rs \<longrightarrow> int (length rs) = n \<and>
            (\<forall>r\<in>set rs. r \<in> set rv \<or> (\<exists>p t. Some r \<in> set (round_routes nodes sp rng p t))))"
   and eq: "(if n - int (length rv) = 0 then Some (Inr rv)
      else (case loop_body nodes sp rng (n - int (length rv)) pos rv of
              Inl e \<Rightarrow> Some (Inl e)
            | Inr (pos', rv') \<Rightarrow> loop nodes sp rng n pos' rv')) = Some y"
  show "(\<forall>e. y = Inl e \<longrightarrow> e = ValueError) \<and>
         (\<forall>rs. y = Inr rs \<longrightarrow> int (length rs) = n \<and>
            (\<forall>r\<in>set rs. r \<in> set rv \<or> (\<exists>p t. Some r \<in> set (round_routes nodes sp rng p t))))"
  proof (cases "n - int (length rv) = 0")
    case True
    with eq show ?thesis by auto
  next
    case False
    show ?thesis
    proof (cases "0 < n - int (length rv) \<and> nodes \<noteq> []")
      case True
      define t where "t = nat (n - int (length rv))"
      define new where "new = [r. Some r \<leftarrow> round_routes nodes sp rng pos t]"
      from True False eq
      have "loop nodes sp rng n (pos + 2 * t) (rv @ new) = Some y"
        by (simp add: loop_body_Inr t_def new_def)
      from IH[OF this]
      have 1: "\<forall>e. y = Inl e \<longrightarrow> e = ValueError"
        and 2: "\<forall>rs. y = Inr rs \<longrightarrow> int (length rs) = n \<and>
            (\<forall>r\<in>set rs. r \<in> set (rv @ new) \<or> (\<exists>p t. Some r \<in> set (round_routes nodes sp rng p t)))"
        by blast+
      have 3: "r \<in> set (rv @ new) \<Longrightarrow> r \<in> set rv \<or> (\<exists>p t. Some r \<in> set (round_routes nodes sp rng p t))" for r
        unfolding new_def set_append set_valid by blast
      from 1 2 3 show ?thesis by blast
    next
      case F2: False
      with False have "loop_body nodes sp rng (n - int (length rv)) pos rv = Inl ValueError"
        by (intro loop_body_Inl) auto
      with False eq show ?thesis by auto
    qed
  qed
qed




section \<open>Claims about Geo.generate\_routes\<close>

text \<open>
  C1. The claim is that no returned route is degenerate. The loop filters with
  \<open>r is not None\<close> only: on the one-edge graph with one requested route, when the origin and
  the destination are both drawn as node 1, the router answers the one-node route \<open>[1]\<close>,
  the filter keeps it, and the loop returns it.
\<close>

theorem generate_routes_keeps_one_node_route:
  "generate_routes one_edge_nodes one_edge_sp (rng_of [0, 0]) 1 0 = Some (Inr [[1]])
   \<and> length [1 :: node] = 1"
  by (simp add: generate_routes_def generate_loop.simps loop_body_def random_choice_def draw_def
      shortest_path_def rng_of_def one_edge_nodes_def one_edge_sp_def)

text \<open>
  A run of \<open>generate_routes\<close> that returns, returns exactly \<open>n\<close> routes, each of them the
  router's answer for a pair of drawn nodes. Every pass of the loop that starts with
  \<open>routes_valid\<close> samples exactly the shortfall \<open>n - len(routes_valid)\<close>: it routes that many
  pairs, reads twice that many draws, and appends the answers that are not None.
\<close>

lemma generate_routes_returns_n_routes:
  "(generate_routes nodes sp rng n pos = Some (Inr rs) \<longrightarrow>
      int (length rs) = n \<and>
      (\<forall>r\<in>set rs. \<exists>k l. sp (draw nodes rng k) (draw nodes rng l) = Some r))
   \<and> (int (length routes_valid) < n \<and> nodes \<noteq> [] \<longrightarrow>
        length (round_routes nodes sp rng p (nat (n - int (length routes_valid))))
          = nat (n - int (length routes_valid))
        \<and> loop_body nodes sp rng (n - int (length routes_valid)) p routes_valid
          = Inr (p + 2 * nat (n - int (length routes_valid)),
                 routes_valid @
                 [r. Some r \<leftarrow> round_routes nodes sp rng p (nat (n - int (length routes_valid)))])
        \<and> generate_loop nodes sp rng n p routes_valid
          = generate_loop nodes sp rng n (p + 2 * nat (n - int (length routes_valid)))
              (routes_valid @
               [r. Some r \<leftarrow> round_routes nodes sp rng p (nat (n - int (length routes_valid)))]))"
proof (intro conjI impI)
  assume run: "generate_routes nodes sp rng n pos = Some (Inr rs)"
  then have run': "generate_loop nodes sp rng n pos [] = Some (Inr rs)"
    by (simp add: generate_routes_def)
  from generate_loop_result[OF run'] show "int (length rs) = n" by simp
  from generate_loop_result[OF run']
  have "\<forall>r\<in>set rs. \<exists>p t. Some r \<in> set (round_routes nodes sp rng p t)" by simp
  then show "\<forall>r\<in>set rs. \<exists>k l. sp (draw nodes rng k) (draw nodes rng l) = Some r"
    using round_routes_sampled by blast
next
  show "length (round_routes nodes sp rng p (nat (n - int (length routes_valid))))
          = nat (n - int (length routes_valid))"
    by (rule length_round_routes)
next
  assume "int (length routes_valid) < n \<and> nodes \<noteq> []"
  then show "loop_body nodes sp rng (n - int (length routes_valid)) p routes_valid
          = Inr (p + 2 * nat (n - int (length routes_valid)),
                 routes_valid @
                 [r. Some r \<leftarrow> round_routes nodes sp rng p (nat (n - int (length routes_valid)))])"
    by (intro loop_body_Inr) auto
next
  assume "int (length routes_valid) < n \<and> nodes \<noteq> []"
  then show "generate_loop nodes sp rng n p routes_valid
          = generate_loop nodes sp rng n (p + 2 * nat (n - int (length routes_valid)))
              (routes_valid @
               [r. Some r \<leftarrow> round_routes nodes sp rng p (nat (n - int (length routes_valid)))])"
    by (intro generate_loop_step) auto
qed

lemma one_edge_run:
  "generate_routes one_edge_nodes one_edge_sp (rng_of [1, 0, 0, 1, 0, 1]) 2 0
     = Some (Inr [[1, 2], [1, 2]])"
  by (simp add: generate_routes_def generate_loop.simps loop_body_def random_choice_def draw_def
      shortest_path_def rng_of_def one_edge_nodes_def one_edge_sp_def nth_Cons' upt_rec)

lemma generate_routes_returns_n_routes_example:
  "generate_routes one_edge_nodes one_edge_sp (rng_of [1, 0, 0, 1, 0, 1]) 2 0
     = Some (Inr [[1, 2], [1, 2]])
   \<and> int (length [[1, 2], [1, 2 :: int]]) = 2
   \<and> (\<exists>k l. one_edge_sp (draw one_edge_nodes (rng_of [1, 0, 0, 1, 0, 1]) k)
                          (draw one_edge_nodes (rng_of [1, 0, 0, 1, 0, 1]) l) = Some [1, 2])
   \<and> int (length [[1, 2 :: int]]) < 2 \<and> one_edge_nodes \<noteq> []
   \<and> loop_body one_edge_nodes one_edge_sp (rng_of [1, 0, 0, 1, 0, 1]) (2 - int (length [[1, 2 :: int]]))
        4 [[1, 2]]
      = Inr (4 + 2 * nat (2 - int (length [[1, 2 :: int]])),
             [[1, 2]] @ [r. Some r \<leftarrow> round_routes one_edge_nodes one_edge_sp
                                    (rng_of [1, 0, 0, 1, 0, 1]) 4 (nat (2 - int (length [[1, 2 :: int]])))])"
proof -
  have len: "int (length [[1, 2 :: int]]) < 2 \<and> one_edge_nodes \<noteq> []"
    by (simp add: one_edge_nodes_def)
  note inst = generate_routes_returns_n_routes[of one_edge_nodes one_edge_sp "rng_of [1, 0, 0, 1, 0, 1]" 2 0
      "[[1, 2], [1, 2]]" "[[1, 2]]" 4]
  from inst one_edge_run len show ?thesis by simp
qed

text \<open>
  C2. The claim is that a run that returns gives exactly \<open>n\<close> valid paths, never fewer. The
  returned list has \<open>n\<close> entries, but the loop counts every answer that is not None: on the
  one-edge graph with two requested routes, when the pairs drawn are node 1 with node 1
  and node 2 with node 2, the first pass collects the one-node routes \<open>[1]\<close> and \<open>[2]\<close>, the
  shortfall is 0, and the loop returns them. None of the two routes has more than one node.
\<close>

theorem generate_routes_counts_one_node_routes:
  "generate_routes one_edge_nodes one_edge_sp (rng_of [0, 1, 0, 1]) 2 0 = Some (Inr [[1], [2]])
   \<and> length (filter (\<lambda>r. 1 < length r) [[1], [2 :: node]]) = 0"
  by (simp add: generate_routes_def generate_loop.simps loop_body_def random_choice_def draw_def
      shortest_path_def rng_of_def one_edge_nodes_def one_edge_sp_def nth_Cons' upt_rec)







section \<open>Properties of the aggregation\<close>

















section \<open>Claims about Geo.centrality\<close>



text \<open>
  C5. The claim is that one requested route on a graph with exactly one edge always gives
  the table with the single row of centrality 1. When the origin and the destination are
  both drawn as node 1, \<open>generate_routes\<close> returns the one-node route \<open>[1]\<close>, which has no
  edge, and \<open>Geo.centrality\<close> raises ValueError instead of returning a table.
\<close>

theorem centrality_of_one_node_route:
  "centrality one_edge_min_key one_edge_nodes one_edge_sp (rng_of [0, 0]) 1 0 = Some (Inl ValueError)"
  by (simp add: centrality_def generate_routes_def generate_loop.simps loop_body_def
      random_choice_def draw_def shortest_path_def rng_of_def one_edge_nodes_def one_edge_sp_def
      centrality_of_routes_def route_to_gdf_def one_edge_min_key_def)

text \<open>When the draws are node 1 and then node 2, the table is the expected one.\<close>

lemma centrality_of_the_edge:
  "centrality one_edge_min_key one_edge_nodes one_edge_sp (rng_of [0, 1]) 1 0
     = Some (Inr [((1, 2, 0), 1)])"
  by (simp add: centrality_def generate_routes_def generate_loop.simps loop_body_def
      random_choice_def draw_def shortest_path_def rng_of_def one_edge_nodes_def one_edge_sp_def
      centrality_of_routes_def route_to_gdf_def one_edge_min_key_def route_pairs_def
      groupby_count_def)

section \<open>Properties of the join\<close>

lemma filter_key_distinct:
  assumes "distinct (map fst right)"
  shows "filter (\<lambda>(k', b). k' = k) right =
         (case map_of right k of None \<Rightarrow> [] | Some b \<Rightarrow> [(k, b)])"
  using assms
proof (induction right)
  case Nil
  then show ?case by simp
next
  case (Cons x right)
  obtain k' b where x: "x = (k', b)" by (cases x)
  show ?case
  proof (cases "k' = k")
    case True
    with Cons.prems x have "k \<notin> fst ` set right" by auto
    then have "map_of right k = None" by (simp add: map_of_eq_None_iff)
    with Cons x True show ?thesis by simp
  next
    case False
    with Cons x show ?thesis by simp
  qed
qed

lemma df_join_length_ge: "length left \<le> length (df_join left right)"
proof (induction left)
  case Nil
  then show ?case by (simp add: df_join_def)
next
  case (Cons x left)
  obtain k a where x: "x = (k, a)" by (cases x)
  have "1 \<le> length (case filter (\<lambda>(k', b). k' = k) right of
                       [] \<Rightarrow> [(k, a, None)]
                     | ms \<Rightarrow> map (\<lambda>(k', b). (k, a, Some b)) ms)"
    by (cases "filter (\<lambda>(k', b). k' = k) right") simp_all
  with Cons x show ?case by (simp add: df_join_def)
qed

lemma df_join_distinct:
  assumes "distinct (map fst right)"
  shows "df_join left right = map (\<lambda>(k, a). (k, a, map_of right k)) left"
proof -
  have "(case filter (\<lambda>(k', b). k' = k) right of
           [] \<Rightarrow> [(k, a, None)]
         | ms \<Rightarrow> map (\<lambda>(k', b). (k, a, Some b)) ms) = [(k, a, map_of right k)]" for k and a :: 'c
    unfolding filter_key_distinct[OF assms] by (cases "map_of right k") simp_all
  then show ?thesis
    unfolding df_join_def by (induction left) auto
qed

lemma join_dataframe_distinct:
  assumes "distinct (map fst edges_df)"
  shows "join_dataframe str centrality_df edges_df =
         map (\<lambda>(k, c). case map_of edges_df k of
                          None \<Rightarrow> (k, c, ''nan'', None)
                        | Some (osmid, geometry) \<Rightarrow> (k, c, str osmid, Some geometry))
             centrality_df"
  unfolding join_dataframe_def df_join_distinct[OF assms]
  by (auto split: option.splits prod.splits)

lemma join_dataframe_length_ge:
  "length centrality_df \<le> length (join_dataframe str centrality_df edges_df)"
  unfolding join_dataframe_def using df_join_length_ge by simp

section \<open>Claim about join\_dataframe\<close>

text \<open>
  C6. The join drops no row of the centrality table. When the edge table has one row per
  edge key (the index of the edge table of a graph), the layer has exactly as many rows as
  the centrality table; and when, in addition, every edge key of the centrality table
  occurs in the edge table, row \<open>i\<close> of the layer carries the key and centrality of row \<open>i\<close>
  of the centrality table together with the osmid (as text) and the geometry of that edge.
\<close>

theorem join_dataframe_keeps_rows:
  "length centrality_df \<le> length (join_dataframe str centrality_df edges_df)
   \<and> (distinct (map fst edges_df) \<longrightarrow>
        length (join_dataframe str centrality_df edges_df) = length centrality_df
        \<and> (fst ` set centrality_df \<subseteq> fst ` set edges_df \<longrightarrow>
              (\<forall>i < length centrality_df.
                 \<exists>osmid geometry.
                   (fst (centrality_df ! i), osmid, geometry) \<in> set edges_df \<and>
                   join_dataframe str centrality_df edges_df ! i
                     = (fst (centrality_df ! i), snd (centrality_df ! i), str osmid, Some geometry))))"
proof (intro conjI impI allI)
  show "length centrality_df \<le> length (join_dataframe str centrality_df edges_df)"
    by (rule join_dataframe_length_ge)
next
  assume d: "distinct (map fst edges_df)"
  show "length (join_dataframe str centrality_df edges_df) = length centrality_df"
    unfolding join_dataframe_distinct[OF d] by simp
next
  fix i
  assume d: "distinct (map fst edges_df)"
    and total: "fst ` set centrality_df \<subseteq> fst ` set edges_df" and i: "i < length centrality_df"
  obtain k c where row: "centrality_df ! i = (k, c)" by (cases "centrality_df ! i")
  with i have "k \<in> fst ` set centrality_df" by (metis fst_conv image_eqI nth_mem)
  with total have "k \<in> fst ` set edges_df" by blast
  then obtain osmid geometry where m: "map_of edges_df k = Some (osmid, geometry)"
    by (cases "map_of edges_df k") (auto simp: map_of_eq_None_iff)
  then have "(k, osmid, geometry) \<in> set edges_df" by (rule map_of_SomeD)
  moreover have "join_dataframe str centrality_df edges_df ! i = (k, c, str osmid, Some geometry)"
    unfolding join_dataframe_distinct[OF d] using i row m by simp
  ultimately show "\<exists>osmid geometry.
                   (fst (centrality_df ! i), osmid, geometry) \<in> set edges_df \<and>
                   join_dataframe str centrality_df edges_df ! i
                     = (fst (centrality_df ! i), snd (centrality_df ! i), str osmid, Some geometry)"
    using row by auto
qed

theorem join_dataframe_keeps_rows_witness:
  "length (join_dataframe str_int
             [((43632295, 43632312, 0), 1 / 2 :: real), ((43632312, 43632295, 0), 1 / 2)]
             [((43632295, 43632312, 0), 44169102, ''AB''), ((43632312, 43632295, 0), 44169102, ''BA'')])
     = 2
   \<and> (\<exists>osmid geometry.
         (fst ([((43632295 :: node, 43632312 :: node, 0 :: nat), 1 / 2 :: real),
                ((43632312, 43632295, 0), 1 / 2)] ! 1), osmid, geometry)
           \<in> set [((43632295, 43632312, 0), 44169102, ''AB''), ((43632312, 43632295, 0), 44169102, ''BA'')]
         \<and> join_dataframe str_int
             [((43632295, 43632312, 0), 1 / 2 :: real), ((43632312, 43632295, 0), 1 / 2)]
             [((43632295, 43632312, 0), 44169102, ''AB''), ((43632312, 43632295, 0), 44169102, ''BA'')] ! 1
           = ((43632312, 43632295, 0), 1 / 2, str_int osmid, Some geometry))"
proof -
  let ?C = "[((43632295 :: node, 43632312 :: node, 0 :: nat), 1 / 2 :: real), ((43632312, 43632295, 0), 1 / 2)]"
  let ?E = "[((43632295 :: node, 43632312 :: node, 0 :: nat), 44169102 :: int, ''AB''),
             ((43632312, 43632295, 0), 44169102, ''BA'')]"
  have d: "distinct (map fst ?E)" by simp
  have total: "fst ` set ?C \<subseteq> fst ` set ?E" by simp
  have i: "1 < length ?C" by simp
  note inst = join_dataframe_keeps_rows[of ?C str_int ?E]
  from inst d have 1: "length (join_dataframe str_int ?C ?E) = length ?C" by blast
  from inst d total i have 2: "\<exists>osmid geometry.
         (fst (?C ! 1), osmid, geometry) \<in> set ?E
         \<and> join_dataframe str_int ?C ?E ! 1 = (fst (?C ! 1), snd (?C ! 1), str_int osmid, Some geometry)"
    by blast
  from 1 2 show ?thesis by simp
qed

section \<open>Properties of the plot weights\<close>

text \<open>
  When the centrality values are not all equal, every weight is a finite number between 0
  and 1; when they are all equal, every weight is NaN.
\<close>

lemma series_min_le:
  assumes "c \<in> set cs"
  shows "series_min cs = Fin (Min (set cs))" "series_max cs = Fin (Max (set cs))"
    "Min (set cs) \<le> c" "c \<le> Max (set cs)"
  using assms by (auto simp: series_min_def series_max_def)

lemma plot_network_weight_in_unit_interval:
  assumes c: "c \<in> set cs" and spread: "Min (set cs) \<noteq> Max (set cs)"
  shows "\<exists>w. fl_div (fl_sub (Fin c) (series_min cs)) (fl_sub (series_max cs) (series_min cs)) = Fin w
             \<and> 0 \<le> w \<and> w \<le> 1"
proof -
  note b = series_min_le[OF c]
  from c have "Min (set cs) \<le> Max (set cs)" by (intro Min_le_iff[THEN iffD2]) auto
  with spread have pos: "0 < Max (set cs) - Min (set cs)" by simp
  have "fl_div (fl_sub (Fin c) (series_min cs)) (fl_sub (series_max cs) (series_min cs))
        = Fin ((c - Min (set cs)) / (Max (set cs) - Min (set cs)))"
    using pos by (simp add: b(1,2))
  moreover have "0 \<le> (c - Min (set cs)) / (Max (set cs) - Min (set cs))"
    using pos b(3) by simp
  moreover have "(c - Min (set cs)) / (Max (set cs) - Min (set cs)) \<le> 1"
    using pos b(4) by simp
  ultimately show ?thesis by blast
qed

lemma plot_network_weight_all_equal:
  assumes "cs \<noteq> []" "Min (set cs) = Max (set cs)"
  shows "plot_network_weight cs = map (\<lambda>c. NaN) cs"
proof -
  have "c = Min (set cs)" if "c \<in> set cs" for c
  proof -
    from that have "Min (set cs) \<le> c" "c \<le> Max (set cs)" by simp_all
    with assms(2) show ?thesis by simp
  qed
  with assms(1) show ?thesis
    by (auto simp: plot_network_weight_def series_min_def series_max_def)
qed

section \<open>Claim about plot\_network\<close>

text \<open>
  C7. The claim is that every weight lies in the interval from 0 to 1, also when all
  centrality values are equal. For the layer with the single row of centrality 1 (the result
  of one sampled route) both numerator and denominator are 0 and the weight is NaN.
\<close>

theorem plot_network_weight_single_row:
  "plot_network_weight [1] = [NaN]"
  by (simp add: plot_network_weight_def series_min_def series_max_def)

section \<open>Properties of the command line\<close>

text \<open>
  On a command line of positional tokens whose third token is neither shortest nor
  fastest, the parser exits with status 2 through \<open>choices\<close>; \<open>main\<close> prints nothing for
  it and the exit propagates, since its handler catches ValueError only.
\<close>

lemma parse_positionals_invalid_type:
  assumes "t \<noteq> ''shortest''" "t \<noteq> ''fastest''"
  shows "parse_positionals parse_int (a # out # t # rest) = Inl (SystemExit 2)"
  using assms by (cases rest) simp_all

lemma invalid_route_type_exits:
  assumes "t \<noteq> ''shortest''" "t \<noteq> ''fastest''" "list_all positional (a # out # t # rest)"
  shows "input_from_commandline parse_int option_handling (a # out # t # rest) = Inl (SystemExit 2)"
    and "main_user_input parse_int option_handling (a # out # t # rest) = ([], Inl (SystemExit 2))"
proof -
  show 1: "input_from_commandline parse_int option_handling (a # out # t # rest) = Inl (SystemExit 2)"
    unfolding input_from_commandline_def
    using assms(3) parse_positionals_invalid_type[OF assms(1,2)] by simp
  show "main_user_input parse_int option_handling (a # out # t # rest) = ([], Inl (SystemExit 2))"
    unfolding main_user_input_def 1 by simp
qed

lemma init_weight_invalid_type:
  "t \<noteq> ''shortest'' \<Longrightarrow> t \<noteq> ''fastest'' \<Longrightarrow> init_weight t = Inl AttributeError"
  by (simp add: init_weight_def)

text \<open>A valid command line is parsed and acknowledged.\<close>

lemma valid_command_line:
  assumes "parse_int ''100'' = Some 100"
  shows "main_user_input parse_int option_handling
           [''Heidelberg'', ''output'', ''fastest'', ''geographical'', ''100'']
   = ([''Processing...'', ''Please wait...''],
      Inr \<lparr>arg_study_area = ''Heidelberg'', arg_outfile = ''output'', arg_route_types = ''fastest'',
           arg_method = ''geographical'', arg_n_routes = Some 100\<rparr>)"
  using assms by (simp add: main_user_input_def input_from_commandline_def positional_def)

section \<open>Claim about the command line\<close>

text \<open>
  C8. The claim is that a route type outside shortest and fastest raises a ValueError that
  \<open>main\<close> catches and answers with its generic message. At the command line
  \<open>Heidelberg output scenic networkx\<close> the parser rejects the value through \<open>choices\<close> and
  exits with status 2: no ValueError is raised, the handler of \<open>main\<close> does not run, and
  nothing is printed.
\<close>

theorem invalid_route_type_not_caught:
  "input_from_commandline parse_int option_handling
     [''Heidelberg'', ''output'', ''scenic'', ''networkx''] = Inl (SystemExit 2)
   \<and> main_user_input parse_int option_handling
       [''Heidelberg'', ''output'', ''scenic'', ''networkx''] = ([], Inl (SystemExit 2))"
  by (simp add: main_user_input_def input_from_commandline_def positional_def)

section \<open>Properties of the folder name\<close>

text \<open>The decimal rendering uses digits and the minus sign only, and it is injective.\<close>

lemma digit_char_in: "d < 10 \<Longrightarrow> digit_char d \<in> set ''0123456789''"
  unfolding digit_char_def by (rule nth_mem) simp

lemma digit_char_inj:
  assumes "d < 10" "e < 10" "digit_char d = digit_char e"
  shows "d = e"
proof -
  have "distinct ''0123456789''" by simp
  with assms show ?thesis
    unfolding digit_char_def by (simp add: nth_eq_iff_index_eq)
qed

lemma str_nat_small: "k < 10 \<Longrightarrow> str_nat k = [digit_char k]"
  by (subst str_nat.simps) simp

lemma str_nat_large:
  "\<not> k < 10 \<Longrightarrow> str_nat k = str_nat (k div 10) @ [digit_char (k mod 10)]"
  by (subst str_nat.simps) simp

lemma set_str_nat: "set (str_nat k) \<subseteq> set ''0123456789''"
proof (induction k rule: str_nat.induct)
  case (1 k)
  show ?case
  proof (cases "k < 10")
    case True
    then show ?thesis using digit_char_in[of k] by (simp add: str_nat_small)
  next
    case False
    have "k mod 10 < 10" by simp
    from digit_char_in[OF this] 1[OF False] False show ?thesis
      by (simp add: str_nat_large)
  qed
qed

lemma str_nat_not_Nil: "str_nat k \<noteq> []"
  by (cases "k < 10") (simp_all add: str_nat_small str_nat_large)

lemma str_nat_inj: "str_nat k = str_nat j \<Longrightarrow> k = j"
proof (induction k arbitrary: j rule: str_nat.induct)
  case (1 k)
  show ?case
  proof (cases "k < 10")
    case k: True
    show ?thesis
    proof (cases "j < 10")
      case True
      with k 1(2) show ?thesis by (simp add: str_nat_small digit_char_inj)
    next
      case False
      with k 1(2) str_nat_not_Nil[of "j div 10"] show ?thesis
        by (simp add: str_nat_small str_nat_large)
    qed
  next
    case k: False
    show ?thesis
    proof (cases "j < 10")
      case True
      with k 1(2) str_nat_not_Nil[of "k div 10"] show ?thesis
        by (simp add: str_nat_small str_nat_large)
    next
      case False
      with k 1(2) have eq: "str_nat (k div 10) = str_nat (j div 10)"
        and d: "digit_char (k mod 10) = digit_char (j mod 10)"
        by (simp_all add: str_nat_large)
      from 1(1)[OF k eq] have "k div 10 = j div 10" .
      moreover from d have "k mod 10 = j mod 10" by (intro digit_char_inj) simp_all
      ultimately have "k div 10 * 10 + k mod 10 = j div 10 * 10 + j mod 10" by simp
      then show ?thesis by (simp only: div_mult_mod_eq)
    qed
  qed
qed

lemma str_nat_chars: "c \<in> set (str_nat k) \<Longrightarrow> c \<in> set ''0123456789''"
  using set_str_nat[of k] by (rule subsetD)

lemma str_nat_no_minus: "CHR ''-'' \<notin> set (str_nat k)"
proof
  assume "CHR ''-'' \<in> set (str_nat k)"
  then have "CHR ''-'' \<in> set ''0123456789''" by (rule str_nat_chars)
  then show False by simp
qed

lemma str_int_chars:
  assumes "c \<in> set (str_int i)"
  shows "c \<in> set ''-0123456789''"
proof (cases "i < 0")
  case True
  with assms have "c = CHR ''-'' \<or> c \<in> set (str_nat (nat (- i)))" by (simp add: str_int_def)
  then show ?thesis
  proof
    assume "c = CHR ''-''"
    then show ?thesis by simp
  next
    assume "c \<in> set (str_nat (nat (- i)))"
    then have "c \<in> set ''0123456789''" by (rule str_nat_chars)
    then show ?thesis by simp
  qed
next
  case False
  with assms have "c \<in> set (str_nat (nat i))" by (simp add: str_int_def)
  then have "c \<in> set ''0123456789''" by (rule str_nat_chars)
  then show ?thesis by simp
qed

lemma str_int_inj: "str_int i = str_int j \<Longrightarrow> i = j"
proof -
  assume eq: "str_int i = str_int j"
  have hd_nat: "hd (str_nat k) \<noteq> CHR ''-''" for k
  proof
    assume "hd (str_nat k) = CHR ''-''"
    moreover have "hd (str_nat k) \<in> set (str_nat k)" using str_nat_not_Nil by (rule hd_in_set)
    ultimately show False using str_nat_no_minus[of k] by simp
  qed
  show "i = j"
  proof (cases "i < 0")
    case i: True
    show ?thesis
    proof (cases "j < 0")
      case True
      with i eq have "str_nat (nat (- i)) = str_nat (nat (- j))" by (simp add: str_int_def)
      from str_nat_inj[OF this] i True show ?thesis by simp
    next
      case False
      with i eq have "CHR ''-'' # str_nat (nat (- i)) = str_nat (nat j)" by (simp add: str_int_def)
      then have "hd (str_nat (nat j)) = CHR ''-''" by (cases "str_nat (nat j)") simp_all
      with hd_nat[of "nat j"] show ?thesis by simp
    qed
  next
    case i: False
    show ?thesis
    proof (cases "j < 0")
      case True
      with i eq have "str_nat (nat i) = CHR ''-'' # str_nat (nat (- j))" by (simp add: str_int_def)
      then have "hd (str_nat (nat i)) = CHR ''-''" by simp
      with hd_nat[of "nat i"] show ?thesis by simp
    next
      case False
      with i eq have "str_nat (nat i) = str_nat (nat j)" by (simp add: str_int_def)
      from str_nat_inj[OF this] i False show ?thesis by simp
    qed
  qed
qed

text \<open>
  A text that ends in an underscore followed by a part without underscores determines
  both pieces; so the folder name determines its four components when the last three
  contain no underscore.
\<close>

lemma takeWhile_to_underscore:
  assumes "CHR ''_'' \<notin> set b"
  shows "takeWhile (\<lambda>c. c \<noteq> CHR ''_'') (rev b @ CHR ''_'' # xs) = rev b"
proof -
  have "takeWhile (\<lambda>c. c \<noteq> CHR ''_'') (rev b @ CHR ''_'' # xs)
        = rev b @ takeWhile (\<lambda>c. c \<noteq> CHR ''_'') (CHR ''_'' # xs)"
  proof (rule takeWhile_append2)
    fix x assume "x \<in> set (rev b)"
    with assms show "x \<noteq> CHR ''_''" by auto
  qed
  then show ?thesis by simp
qed

lemma split_last_underscore:
  assumes "CHR ''_'' \<notin> set b" "CHR ''_'' \<notin> set b'" "a @ ''_'' @ b = a' @ ''_'' @ b'"
  shows "a = a' \<and> b = b'"
proof -
  from assms(3) have "rev (a @ ''_'' @ b) = rev (a' @ ''_'' @ b')" by (rule arg_cong)
  then have "rev b @ CHR ''_'' # rev a = rev b' @ CHR ''_'' # rev a'" by simp
  then have "takeWhile (\<lambda>c. c \<noteq> CHR ''_'') (rev b @ CHR ''_'' # rev a)
           = takeWhile (\<lambda>c. c \<noteq> CHR ''_'') (rev b' @ CHR ''_'' # rev a')" by (rule arg_cong)
  then have "rev b = rev b'"
    by (simp only: takeWhile_to_underscore[OF assms(1)] takeWhile_to_underscore[OF assms(2)])
  then have "b = b'" by simp
  with assms(3) show ?thesis by simp
qed

lemma join4_inj:
  assumes t: "CHR ''_'' \<notin> set t" "CHR ''_'' \<notin> set t'"
    and m: "CHR ''_'' \<notin> set m" "CHR ''_'' \<notin> set m'"
    and n: "CHR ''_'' \<notin> set n" "CHR ''_'' \<notin> set n'"
    and eq: "a @ ''_'' @ t @ ''_'' @ m @ ''_'' @ n = a' @ ''_'' @ t' @ ''_'' @ m' @ ''_'' @ n'"
  shows "a = a' \<and> t = t' \<and> m = m' \<and> n = n'"
proof -
  from eq have "(a @ ''_'' @ t @ ''_'' @ m) @ ''_'' @ n = (a' @ ''_'' @ t' @ ''_'' @ m') @ ''_'' @ n'"
    by simp
  from split_last_underscore[OF n this]
  have 1: "a @ ''_'' @ t @ ''_'' @ m = a' @ ''_'' @ t' @ ''_'' @ m'" and n_eq: "n = n'" by blast+
  from 1 have "(a @ ''_'' @ t) @ ''_'' @ m = (a' @ ''_'' @ t') @ ''_'' @ m'" by simp
  from split_last_underscore[OF m this]
  have 2: "a @ ''_'' @ t = a' @ ''_'' @ t'" and m_eq: "m = m'" by blast+
  from split_last_underscore[OF t 2] n_eq m_eq show ?thesis by blast
qed

lemma type_no_underscore:
  "t \<in> {''shortest'', ''fastest''} \<Longrightarrow> CHR ''_'' \<notin> set t"
  by auto

lemma fmt_method_no_underscore:
  "m \<in> {Some ''networkx'', Some ''geographical''} \<Longrightarrow> CHR ''_'' \<notin> set (fmt id m)"
  by (auto simp: fmt_def)

lemma fmt_method_inj:
  "m \<in> {Some ''networkx'', Some ''geographical''} \<Longrightarrow>
   m' \<in> {Some ''networkx'', Some ''geographical''} \<Longrightarrow> fmt id m = fmt id m' \<Longrightarrow> m = m'"
  by (auto simp: fmt_def)

lemma fmt_n_no_underscore: "CHR ''_'' \<notin> set (fmt str_int n)"
proof (cases n)
  case None
  then show ?thesis by (simp add: fmt_def)
next
  case (Some i)
  show ?thesis
  proof
    assume "CHR ''_'' \<in> set (fmt str_int n)"
    with Some have "CHR ''_'' \<in> set (str_int i)" by (simp add: fmt_def)
    then have "CHR ''_'' \<in> set ''-0123456789''" by (rule str_int_chars)
    then show False by simp
  qed
qed

lemma str_int_not_None: "str_int i \<noteq> ''None''"
proof
  assume "str_int i = ''None''"
  then have "CHR ''N'' \<in> set (str_int i)" by simp
  then have "CHR ''N'' \<in> set ''-0123456789''" by (rule str_int_chars)
  then show False by simp
qed

lemma fmt_n_inj: "fmt str_int n = fmt str_int n' \<Longrightarrow> n = n'"
  using str_int_not_None str_int_inj
  by (cases n; cases n') (auto simp: fmt_def dest: sym)

lemma folder_name_inj:
  assumes "self_type a \<in> {''shortest'', ''fastest''}" "self_type b \<in> {''shortest'', ''fastest''}"
    and "self_method a \<in> {Some ''networkx'', Some ''geographical''}"
    and "self_method b \<in> {Some ''networkx'', Some ''geographical''}"
    and eq: "folder_name a = folder_name b"
  shows "self_area a = self_area b \<and> self_type a = self_type b \<and>
         self_method a = self_method b \<and> self_n a = self_n b"
proof -
  from eq have "self_area a @ ''_'' @ self_type a @ ''_'' @ fmt id (self_method a) @ ''_''
                  @ fmt str_int (self_n a)
              = self_area b @ ''_'' @ self_type b @ ''_'' @ fmt id (self_method b) @ ''_''
                  @ fmt str_int (self_n b)"
    unfolding folder_name_def .
  from join4_inj[OF type_no_underscore[OF assms(1)] type_no_underscore[OF assms(2)]
      fmt_method_no_underscore[OF assms(3)] fmt_method_no_underscore[OF assms(4)]
      fmt_n_no_underscore fmt_n_no_underscore this]
  have "self_area a = self_area b" "self_type a = self_type b"
    "fmt id (self_method a) = fmt id (self_method b)" "fmt str_int (self_n a) = fmt str_int (self_n b)"
    by blast+
  with fmt_method_inj[OF assms(3,4)] fmt_n_inj show ?thesis by blast
qed

lemma os_path_join_relative:
  assumes "outdir \<noteq> []" "last outdir \<noteq> CHR ''/''" "name = [] \<or> hd name \<noteq> CHR ''/''"
  shows "os_path_join outdir name = outdir @ ''/'' @ name"
  using assms by (auto simp: os_path_join_def)

lemma folder_name_relative:
  "self_area ob = [] \<or> hd (self_area ob) \<noteq> CHR ''/'' \<Longrightarrow>
   folder_name ob = [] \<or> hd (folder_name ob) \<noteq> CHR ''/''"
  by (cases "self_area ob") (auto simp: folder_name_def)

lemma create_new_folder_path: "fst (create_new_folder ob fs) = Inr (output_path ob)"
  by (simp add: create_new_folder_def os_makedirs_def)

lemma os_path_join_inj:
  assumes "x = [] \<or> hd x \<noteq> CHR ''/''" "y = [] \<or> hd y \<noteq> CHR ''/''"
    and "os_path_join outdir x = os_path_join outdir y"
  shows "x = y"
  using assms by (auto simp: os_path_join_def split: if_splits)

lemma create_new_folder_relative:
  assumes "self_outfile a \<noteq> [] \<and> last (self_outfile a) \<noteq> CHR ''/'' \<and>
              (self_area a = [] \<or> hd (self_area a) \<noteq> CHR ''/'')"
  shows "fst (create_new_folder a fs)
                = Inr (self_outfile a @ ''/'' @ self_area a @ ''_'' @ self_type a @ ''_''
                         @ fmt id (self_method a) @ ''_'' @ fmt str_int (self_n a))"
proof -
  from assms have rel: "folder_name a = [] \<or> hd (folder_name a) \<noteq> CHR ''/''"
    by (intro folder_name_relative) blast
  from assms have "self_outfile a \<noteq> []" "last (self_outfile a) \<noteq> CHR ''/''" by blast+
  from os_path_join_relative[OF this rel]
  have "os_path_join (self_outfile a) (folder_name a) = self_outfile a @ ''/'' @ folder_name a" .
  then show ?thesis
    unfolding create_new_folder_path output_path_def folder_name_def by (simp only:)
qed


lemma folder_name_eq_iff:
  assumes "self_type a \<in> {''shortest'', ''fastest''}" "self_type b \<in> {''shortest'', ''fastest''}"
    and "self_method a \<in> {Some ''networkx'', Some ''geographical''}"
    and "self_method b \<in> {Some ''networkx'', Some ''geographical''}"
  shows "folder_name a = folder_name b \<longleftrightarrow>
              self_area a = self_area b \<and> self_type a = self_type b \<and>
              self_method a = self_method b \<and> self_n a = self_n b"
proof
  assume "folder_name a = folder_name b"
  from folder_name_inj[OF assms this]
  show "self_area a = self_area b \<and> self_type a = self_type b \<and>
              self_method a = self_method b \<and> self_n a = self_n b" .
next
  assume "self_area a = self_area b \<and> self_type a = self_type b \<and>
              self_method a = self_method b \<and> self_n a = self_n b"
  then show "folder_name a = folder_name b" unfolding folder_name_def by (simp only:)
qed

lemma output_path_eq_iff:
  assumes same: "self_outfile a = self_outfile b"
    and ra: "self_area a = [] \<or> hd (self_area a) \<noteq> CHR ''/''"
    and rb: "self_area b = [] \<or> hd (self_area b) \<noteq> CHR ''/''"
  shows "output_path a = output_path b \<longleftrightarrow> folder_name a = folder_name b"
proof
  assume "output_path a = output_path b"
  with same have "os_path_join (self_outfile a) (folder_name a)
                   = os_path_join (self_outfile a) (folder_name b)"
    unfolding output_path_def by (simp only:)
  with folder_name_relative[OF ra] folder_name_relative[OF rb]
  show "folder_name a = folder_name b" by (rule os_path_join_inj)
next
  assume "folder_name a = folder_name b"
  with same show "output_path a = output_path b" unfolding output_path_def by (simp only:)
qed

lemma str_int_100: "str_int 100 = ''100''"
  by (simp add: str_int_def str_nat.simps digit_char_def)

section \<open>Claims about the output folder\<close>

text \<open>
  C9. For objects whose route type is shortest or fastest and whose method is networkx or
  geographical, \<open>create_new_folder\<close> returns the join of the output directory with the name
  area, route type, method and n, in this order, separated by underscores; for an output
  directory that is not empty and does not end in a slash and an area that does not start
  with one, that is the output directory, a slash and the name. The returned path does not
  depend on the state of the file system. Two such objects have the same folder name
  exactly when they agree on area, route type, method and n, and for the same output
  directory and areas that do not start with a slash the same holds for the whole path.
\<close>

theorem output_folder_naming:
  assumes "self_type a \<in> {''shortest'', ''fastest''}" "self_type b \<in> {''shortest'', ''fastest''}"
    and "self_method a \<in> {Some ''networkx'', Some ''geographical''}"
    and "self_method b \<in> {Some ''networkx'', Some ''geographical''}"
  shows "fst (create_new_folder a fs)
           = Inr (os_path_join (self_outfile a)
                    (self_area a @ ''_'' @ self_type a @ ''_'' @ fmt id (self_method a) @ ''_''
                       @ fmt str_int (self_n a)))
         \<and> (self_outfile a \<noteq> [] \<and> last (self_outfile a) \<noteq> CHR ''/'' \<and>
              (self_area a = [] \<or> hd (self_area a) \<noteq> CHR ''/'') \<longrightarrow>
              fst (create_new_folder a fs)
                = Inr (self_outfile a @ ''/'' @ self_area a @ ''_'' @ self_type a @ ''_''
                         @ fmt id (self_method a) @ ''_'' @ fmt str_int (self_n a)))
         \<and> fst (create_new_folder a fs) = fst (create_new_folder a fs')
         \<and> (folder_name a = folder_name b \<longleftrightarrow>
              self_area a = self_area b \<and> self_type a = self_type b \<and>
              self_method a = self_method b \<and> self_n a = self_n b)
         \<and> (self_outfile a = self_outfile b \<and>
              (self_area a = [] \<or> hd (self_area a) \<noteq> CHR ''/'') \<and>
              (self_area b = [] \<or> hd (self_area b) \<noteq> CHR ''/'') \<longrightarrow>
              (output_path a = output_path b \<longleftrightarrow>
                 self_area a = self_area b \<and> self_type a = self_type b \<and>
                 self_method a = self_method b \<and> self_n a = self_n b))"
proof (rule conjI, rule_tac [2] conjI, rule_tac [3] conjI, rule_tac [4] conjI)
  show "fst (create_new_folder a fs)
           = Inr (os_path_join (self_outfile a)
                    (self_area a @ ''_'' @ self_type a @ ''_'' @ fmt id (self_method a) @ ''_''
                       @ fmt str_int (self_n a)))"
    unfolding create_new_folder_path output_path_def folder_name_def ..
next
  show "self_outfile a \<noteq> [] \<and> last (self_outfile a) \<noteq> CHR ''/'' \<and>
              (self_area a = [] \<or> hd (self_area a) \<noteq> CHR ''/'') \<longrightarrow>
              fst (create_new_folder a fs)
                = Inr (self_outfile a @ ''/'' @ self_area a @ ''_'' @ self_type a @ ''_''
                         @ fmt id (self_method a) @ ''_'' @ fmt str_int (self_n a))"
    by (rule impI) (rule create_new_folder_relative)
next
  show "fst (create_new_folder a fs) = fst (create_new_folder a fs')"
    unfolding create_new_folder_path ..
next
  show "folder_name a = folder_name b \<longleftrightarrow>
              self_area a = self_area b \<and> self_type a = self_type b \<and>
              self_method a = self_method b \<and> self_n a = self_n b"
    by (rule folder_name_eq_iff[OF assms])
next
  show "self_outfile a = self_outfile b \<and>
              (self_area a = [] \<or> hd (self_area a) \<noteq> CHR ''/'') \<and>
              (self_area b = [] \<or> hd (self_area b) \<noteq> CHR ''/'') \<longrightarrow>
              (output_path a = output_path b \<longleftrightarrow>
                 self_area a = self_area b \<and> self_type a = self_type b \<and>
                 self_method a = self_method b \<and> self_n a = self_n b)"
  proof (rule impI)
    assume h: "self_outfile a = self_outfile b \<and>
              (self_area a = [] \<or> hd (self_area a) \<noteq> CHR ''/'') \<and>
              (self_area b = [] \<or> hd (self_area b) \<noteq> CHR ''/'')"
    then have "output_path a = output_path b \<longleftrightarrow> folder_name a = folder_name b"
      by (intro output_path_eq_iff) (erule conjE, assumption, (erule conjE)+, assumption,
          (erule conjE)+, assumption)
    then show "output_path a = output_path b \<longleftrightarrow>
                 self_area a = self_area b \<and> self_type a = self_type b \<and>
                 self_method a = self_method b \<and> self_n a = self_n b"
      by (simp only: folder_name_eq_iff[OF assms])
  qed
qed

theorem output_folder_naming_witness:
  "fst (create_new_folder geo_obj {}) = Inr ''output/Heidelberg_fastest_geographical_100''
   \<and> fst (create_new_folder geo_obj {}) = fst (create_new_folder geo_obj {''output''})
   \<and> folder_name geo_obj \<noteq> folder_name networkx_obj
   \<and> output_path geo_obj \<noteq> output_path networkx_obj"
proof -
  have t: "self_type geo_obj \<in> {''shortest'', ''fastest''}"
      "self_type networkx_obj \<in> {''shortest'', ''fastest''}"
    and m: "self_method geo_obj \<in> {Some ''networkx'', Some ''geographical''}"
      "self_method networkx_obj \<in> {Some ''networkx'', Some ''geographical''}"
    by (simp_all add: geo_obj_def networkx_obj_def)
  note inst = output_folder_naming[OF t m, of "{}" "{''output''}"]
  have rel: "self_outfile geo_obj \<noteq> [] \<and> last (self_outfile geo_obj) \<noteq> CHR ''/'' \<and>
              (self_area geo_obj = [] \<or> hd (self_area geo_obj) \<noteq> CHR ''/'')"
    by (simp add: geo_obj_def)
  have same: "self_outfile geo_obj = self_outfile networkx_obj \<and>
              (self_area geo_obj = [] \<or> hd (self_area geo_obj) \<noteq> CHR ''/'') \<and>
              (self_area networkx_obj = [] \<or> hd (self_area networkx_obj) \<noteq> CHR ''/'')"
    by (simp add: geo_obj_def networkx_obj_def)
  have diff: "self_method geo_obj \<noteq> self_method networkx_obj"
    by (simp add: geo_obj_def networkx_obj_def)
  from inst rel have "fst (create_new_folder geo_obj {})
                = Inr (self_outfile geo_obj @ ''/'' @ self_area geo_obj @ ''_'' @ self_type geo_obj @ ''_''
                         @ fmt id (self_method geo_obj) @ ''_'' @ fmt str_int (self_n geo_obj))"
    by blast
  then have 1: "fst (create_new_folder geo_obj {}) = Inr ''output/Heidelberg_fastest_geographical_100''"
    by (simp add: geo_obj_def fmt_def str_int_100)
  from inst have 2: "fst (create_new_folder geo_obj {}) = fst (create_new_folder geo_obj {''output''})"
    by blast
  from inst diff have 3: "folder_name geo_obj \<noteq> folder_name networkx_obj" by blast
  from inst same diff have 4: "output_path geo_obj \<noteq> output_path networkx_obj" by blast
  from 1 2 3 4 show ?thesis by blast
qed

section \<open>Properties of repeated folder creation\<close>

lemma create_new_folder_exists: "output_path ob \<in> snd (create_new_folder ob fs)"
  by (simp add: create_new_folder_def os_makedirs_def)

lemma create_new_folder_again:
  "output_path ob \<in> fs \<Longrightarrow> create_new_folder ob fs = (Inr (output_path ob), fs)"
  by (simp add: create_new_folder_def)

lemma create_new_folder_iterate:
  "((\<lambda>s. snd (create_new_folder ob s)) ^^ Suc k) fs = snd (create_new_folder ob fs)"
proof (induction k)
  case 0
  then show ?case by simp
next
  case (Suc k)
  have "((\<lambda>s. snd (create_new_folder ob s)) ^^ Suc (Suc k)) fs
        = snd (create_new_folder ob (((\<lambda>s. snd (create_new_folder ob s)) ^^ Suc k) fs))"
    by (simp del: funpow.simps add: funpow.simps(2)[of "Suc k"])
  also have "\<dots> = snd (create_new_folder ob (snd (create_new_folder ob fs)))"
    by (simp only: Suc.IH)
  also have "\<dots> = snd (create_new_folder ob fs)"
    by (simp add: create_new_folder_again create_new_folder_exists)
  finally show ?case .
qed

lemma save_file_ok:
  "save_file name ob fs =
     (Inr (os_path_join (output_path ob) name),
      insert (os_path_join (output_path ob) name) (snd (create_new_folder ob fs)))"
  by (simp add: save_file_def create_new_folder_def os_makedirs_def)

lemma create_new_folder_after:
  "fst (create_new_folder ob (((\<lambda>s. snd (create_new_folder ob s)) ^^ k) fs)) = Inr (output_path ob)"
  by (rule create_new_folder_path)

lemma main_export_paths:
  "fst (main_export ob fs)
       = Inr [output_path ob, os_path_join (output_path ob) ''centrality.gpkg'',
              os_path_join (output_path ob) ''centrality.png'']"
proof -
  obtain fs0 where c: "create_new_folder ob fs = (Inr (output_path ob), fs0)"
    using create_new_folder_path[of ob fs] by (cases "create_new_folder ob fs") simp
  show ?thesis
    unfolding main_export_def c save_as_geopackage_def save_as_png_def save_file_ok by simp
qed

text \<open>
  C10. \<open>create_new_folder\<close> always returns the output path without an exception; called
  again on the file system it leaves behind, it returns the same path and changes
  nothing, after any number of calls; and the three requests made during the export (by
  \<open>main\<close>, \<open>save_as_geopackage\<close> and \<open>save_as_png\<close>) succeed and put both files into that
  one folder.
\<close>

theorem create_new_folder_idempotent:
  "fst (create_new_folder ob fs) = Inr (output_path ob)
   \<and> create_new_folder ob (snd (create_new_folder ob fs))
       = (Inr (output_path ob), snd (create_new_folder ob fs))
   \<and> (\<forall>k. fst (create_new_folder ob (((\<lambda>s. snd (create_new_folder ob s)) ^^ k) fs))
            = Inr (output_path ob))
   \<and> (\<forall>k. ((\<lambda>s. snd (create_new_folder ob s)) ^^ Suc k) fs = snd (create_new_folder ob fs))
   \<and> fst (main_export ob fs)
       = Inr [output_path ob, os_path_join (output_path ob) ''centrality.gpkg'',
              os_path_join (output_path ob) ''centrality.png'']"
proof (rule conjI, rule_tac [2] conjI, rule_tac [3] conjI, rule_tac [4] conjI)
  show "fst (create_new_folder ob fs) = Inr (output_path ob)"
    by (rule create_new_folder_path)
next
  show "create_new_folder ob (snd (create_new_folder ob fs))
       = (Inr (output_path ob), snd (create_new_folder ob fs))"
    by (rule create_new_folder_again) (rule create_new_folder_exists)
next
  show "\<forall>k. fst (create_new_folder ob (((\<lambda>s. snd (create_new_folder ob s)) ^^ k) fs))
            = Inr (output_path ob)"
    by (rule allI) (rule create_new_folder_after)
next
  show "\<forall>k. ((\<lambda>s. snd (create_new_folder ob s)) ^^ Suc k) fs = snd (create_new_folder ob fs)"
    by (rule allI) (rule create_new_folder_iterate)
next
  show "fst (main_export ob fs)
       = Inr [output_path ob, os_path_join (output_path ob) ''centrality.gpkg'',
              os_path_join (output_path ob) ''centrality.png'']"
    by (rule main_export_paths)
qed

text \<open>The export of the geographical object into an existing output directory.\<close>

lemma export_run:
  "main_export geo_obj {''output''}
   = (Inr [''output/Heidelberg_fastest_geographical_100'',
           ''output/Heidelberg_fastest_geographical_100/centrality.gpkg'',
           ''output/Heidelberg_fastest_geographical_100/centrality.png''],
      {''output/Heidelberg_fastest_geographical_100/centrality.png'',
       ''output/Heidelberg_fastest_geographical_100/centrality.gpkg'',
       ''output/Heidelberg_fastest_geographical_100'', ''output''})"
  by (simp add: main_export_def save_as_geopackage_def save_as_png_def save_file_def
      create_new_folder_def os_makedirs_def output_path_def folder_name_def os_path_join_def
      geo_obj_def fmt_def str_int_100 parents_def insert_commute)

end
